theory Spec2Isabelle
  imports Complex_Main "HOL-Library.AList" "HOL-Library.Char_ord" "HOL-Library.List_Lexorder"
begin

section \<open>Tyre degradation window: data model\<close>

text \<open>
  The development embeds \<^verbatim>\<open>src/gui/tyre_degradation_window.py\<close>. Python integers are
  \<^typ>\<open>int\<close>. The health percentage is a Python float produced by one true division, one
  multiplication and one subtraction; it is modelled by the exact value in \<^typ>\<open>real\<close>, so
  rounding of the floating-point operations, and the infinities that the multiplication and
  the subtraction can produce, are not part of the model. The one exception these operations
  can raise, the \<^verbatim>\<open>OverflowError\<close> of the division, is.
\<close>

text \<open>The dictionary appended per driver in \<^verbatim>\<open>on_telemetry_data\<close> (keys frame, tyre,
  tyre_life, lap).\<close>

record entry =
  frame :: int
  tyre :: int
  tyre_life :: int
  lap :: int

text \<open>The dictionary built for each stint in \<^verbatim>\<open>compute_degradation_series\<close>.\<close>

record stint =
  compound :: int
  start_life :: int
  start_lap :: int
  lives :: "int list"
  laps :: "int list"

datatype py_error = ZeroDivisionError | ValueError | OverflowError

section \<open>Building stints\<close>

text \<open>
  The loop variables of the stint loop. In the source \<^verbatim>\<open>current_stint\<close> is the very object
  that was appended last to \<^verbatim>\<open>stints\<close>, so appending to its lists changes the last element
  of \<^verbatim>\<open>stints\<close> too; the model writes the changed stint to both places.
\<close>

record seg_state =
  stints :: "stint list"
  current_stint :: "stint option"
  previous_life :: "int option"

definition seg_init :: seg_state where
  "seg_init = \<lparr>stints = [], current_stint = None, previous_life = None\<rparr>"

definition new_stint :: "int \<Rightarrow> int \<Rightarrow> int \<Rightarrow> stint" where
  "new_stint life c l =
     \<lparr>compound = c, start_life = life, start_lap = l, lives = [life], laps = [l]\<rparr>"

definition is_new_stint :: "seg_state \<Rightarrow> int \<Rightarrow> int \<Rightarrow> bool" where
  "is_new_stint st life c =
     (case current_stint st of
        None \<Rightarrow> True
      | Some cs \<Rightarrow>
          compound cs \<noteq> c
          \<or> (case previous_life st of None \<Rightarrow> False | Some p \<Rightarrow> life < p))"

definition stint_step :: "seg_state \<Rightarrow> int \<times> int \<times> int \<Rightarrow> seg_state" where
  "stint_step st x =
     (case x of (life, c, l) \<Rightarrow>
        (let fresh = new_stint life c l;
             started = \<lparr>stints = stints st @ [fresh], current_stint = Some fresh,
                        previous_life = Some life\<rparr>
         in case current_stint st of
              None \<Rightarrow> started
            | Some cs \<Rightarrow>
                if is_new_stint st life c then started
                else
                  (let cs' = cs\<lparr>lives := lives cs @ [life], laps := laps cs @ [l]\<rparr>
                   in \<lparr>stints = butlast (stints st) @ [cs'], current_stint = Some cs',
                       previous_life = Some life\<rparr>)))"

text \<open>The loop over \<^verbatim>\<open>zip(tyre_lives, compounds, laps)\<close>; a sample is the triple
  (life, compound, lap).\<close>

definition build_stints :: "(int \<times> int \<times> int) list \<Rightarrow> stint list" where
  "build_stints xs = stints (foldl stint_step seg_init xs)"

section \<open>Health curve\<close>

text \<open>
  Python's \<^verbatim>\<open>int / int\<close> rounds the exact quotient to the nearest double (ties to even) and
  raises \<^verbatim>\<open>OverflowError\<close> when that is not a finite double: when the magnitude of the
  quotient reaches \<open>2^1024 - 2^970\<close>, half way between the largest double and \<open>2^1024\<close>.
\<close>

definition float_overflow :: "real \<Rightarrow> bool" where
  "float_overflow q = (2 ^ 1024 - 2 ^ 970 \<le> \<bar>q\<bar>)"

definition true_div :: "int \<Rightarrow> int \<Rightarrow> py_error + real" where
  "true_div a b =
     (if b = 0 then Inl ZeroDivisionError
      else if float_overflow (real_of_int a / real_of_int b) then Inl OverflowError
      else Inr (real_of_int a / real_of_int b))"

definition health_pct :: "int \<Rightarrow> int \<Rightarrow> int \<Rightarrow> int \<Rightarrow> py_error + real" where
  "health_pct expected_life start_life' start_lap' l =
     (let laps_in_stint = max 0 (l - start_lap');
          effective_life_progress = max 0 ((start_life' - 1) + laps_in_stint)
      in if expected_life > 1 then
           (case true_div effective_life_progress (expected_life - 1) of
              Inl e \<Rightarrow> Inl e
            | Inr q \<Rightarrow> Inr (100 - q * 100))
         else Inr 100)"

text \<open>The inner loop over \<^verbatim>\<open>zip(stint['lives'], stint['laps'])\<close>, appending to
  \<^verbatim>\<open>plot_x\<close> and \<^verbatim>\<open>plot_y\<close>.\<close>

fun stint_points ::
  "int \<Rightarrow> int \<Rightarrow> int \<Rightarrow> (int \<times> int) list \<Rightarrow> int list \<times> real list
     \<Rightarrow> py_error + (int list \<times> real list)" where
  "stint_points expected_life sl sp [] acc = Inr acc"
| "stint_points expected_life sl sp ((life, l) # rest) (plot_x, plot_y) =
     (case health_pct expected_life sl sp l of
        Inl e \<Rightarrow> Inl e
      | Inr h \<Rightarrow> stint_points expected_life sl sp rest (plot_x @ [l], plot_y @ [h]))"

definition expected_life_of :: "(int \<rightharpoonup> int) \<Rightarrow> int \<Rightarrow> int" where
  "expected_life_of profile c = (case profile c of None \<Rightarrow> 25 | Some v \<Rightarrow> v)"

text \<open>The outer loop over \<^verbatim>\<open>stints\<close>.\<close>

fun plot_stints ::
  "(int \<rightharpoonup> int) \<Rightarrow> stint list \<Rightarrow> int list \<times> real list \<Rightarrow> py_error + (int list \<times> real list)" where
  "plot_stints profile [] acc = Inr acc"
| "plot_stints profile (s # ss) acc =
     (case stint_points (expected_life_of profile (compound s)) (start_life s) (start_lap s)
             (zip (lives s) (laps s)) acc of
        Inl e \<Rightarrow> Inl e
      | Inr acc' \<Rightarrow> plot_stints profile ss acc')"

definition compute_degradation_series ::
  "(int \<rightharpoonup> int) \<Rightarrow> entry list \<Rightarrow> py_error + (int list \<times> real list)" where
  "compute_degradation_series profile entries =
     (if entries = [] then Inr ([], [])
      else
        (let entries' = sort_key frame entries;
             tyre_lives = map tyre_life entries';
             compounds = map tyre entries';
             laps' = map lap entries'
         in plot_stints profile (build_stints (zip tyre_lives (zip compounds laps'))) ([], [])))"

text \<open>The table \<^verbatim>\<open>self.expected_tyre_life\<close> set in the constructor.\<close>

definition expected_tyre_life_table :: "int \<rightharpoonup> int" where
  "expected_tyre_life_table = [0 \<mapsto> 20, 1 \<mapsto> 25, 2 \<mapsto> 30, 3 \<mapsto> 18, 4 \<mapsto> 22]"

section \<open>Sample store\<close>

text \<open>
  \<^verbatim>\<open>self.driver_data\<close> is a Python dictionary from driver code to a list of entries. It is
  modelled as an association list in insertion order: assigning to an existing key keeps its
  position, assigning to a new key appends it, which is what \<^const>\<open>AList.update\<close> does.
\<close>

type_synonym store = "(string \<times> entry list) list"

text \<open>\<^verbatim>\<open>self.driver_data.get(driver, [])\<close>\<close>

definition get_entries :: "store \<Rightarrow> string \<Rightarrow> entry list" where
  "get_entries dd code = (case map_of dd code of None \<Rightarrow> [] | Some es \<Rightarrow> es)"

text \<open>The body of the loop of \<^verbatim>\<open>on_telemetry_data\<close> for one driver: create the history if
  absent, append, keep the last 1000 entries (\<^verbatim>\<open>[-1000:]\<close>) when there are more.\<close>

definition record_entry :: "string \<Rightarrow> entry \<Rightarrow> store \<Rightarrow> store" where
  "record_entry code e dd =
     (let dd1 = (if map_of dd code = None then AList.update code [] dd else dd);
          es = get_entries dd1 code @ [e];
          dd2 = AList.update code es dd1
      in if length es > 1000 then AList.update code (drop (length es - 1000) es) dd2 else dd2)"

text \<open>One driver's value in \<^verbatim>\<open>data['frame']['drivers']\<close>; each key may be missing.\<close>

record pos =
  pos_tyre :: "int option"
  pos_tyre_life :: "int option"
  pos_lap :: "int option"

record telemetry_frame =
  drivers :: "((string \<times> pos) list) option"

record telemetry =
  frame_payload :: "telemetry_frame option"
  frame_index :: "int option"

definition get_or :: "'a option \<Rightarrow> 'a \<Rightarrow> 'a" where
  "get_or v d = (case v of None \<Rightarrow> d | Some x \<Rightarrow> x)"

definition tyre_data :: "int \<Rightarrow> pos \<Rightarrow> entry" where
  "tyre_data fi p =
     \<lparr>frame = fi, tyre = get_or (pos_tyre p) 0, tyre_life = get_or (pos_tyre_life p) 0,
      lap = get_or (pos_lap p) 0\<rparr>"

section \<open>The plotted figure\<close>

text \<open>
  The matplotlib figure is modelled by what \<^verbatim>\<open>update_plot\<close> writes to it: the texts, the
  plotted lines, the title, the axis labels and limits, the grid and the legend of its axes.
  \<^verbatim>\<open>tight_layout\<close> and \<^verbatim>\<open>canvas.draw\<close> belong to the toolkit and are left out, and so
  is whatever the toolkit itself may raise on the values it is given: the errors of the model
  are those of the code of \<^verbatim>\<open>update_plot\<close>, and the properties of a plot are stated for a
  plot that returns.
\<close>

datatype color = TabBlue | Tab10 nat

datatype legend = LegendDefault | LegendUpperLeftSmallTwoColumns

record line =
  line_x :: "int list"
  line_y :: "real list"
  line_width :: real
  line_color :: color
  line_label :: string
  line_alpha :: "real option"

record axes =
  ax_texts :: "string list"
  ax_lines :: "line list"
  ax_title :: string
  ax_xlabel :: string
  ax_ylabel :: string
  ax_xlim :: "(int \<times> int) option"
  ax_ylim :: "(int \<times> int) option"
  ax_grid :: bool
  ax_legend :: "legend option"

text \<open>The axes returned by \<^verbatim>\<open>add_subplot(111)\<close> on the cleared figure.\<close>

definition new_axes :: axes where
  "new_axes =
     \<lparr>ax_texts = [], ax_lines = [], ax_title = [], ax_xlabel = [], ax_ylabel = [],
      ax_xlim = None, ax_ylim = None, ax_grid = False, ax_legend = None\<rparr>"

definition waiting_text :: string where
  "waiting_text =
     ''Waiting for telemetry data...'' @ [CHR 0x0A]
       @ ''Select a driver to view degradation analysis''"

definition placeholder_axes :: axes where
  "placeholder_axes =
     new_axes\<lparr>ax_texts := [waiting_text], ax_xlim := Some (0, 1), ax_ylim := Some (0, 1)\<rparr>"

section \<open>The window\<close>

record window =
  current_driver :: string
  driver_data :: store
  expected_tyre_life :: "int \<rightharpoonup> int"
  combo_items :: "string list"
  figure :: "axes list"

text \<open>The attributes set by the constructor, before the first plot.\<close>

definition window_init :: window where
  "window_init =
     \<lparr>current_driver = ''All Drivers'', driver_data = [],
      expected_tyre_life = expected_tyre_life_table, combo_items = [''All Drivers''],
      figure = []\<rparr>"

definition on_telemetry_data :: "telemetry \<Rightarrow> window \<Rightarrow> window" where
  "on_telemetry_data data w =
     (case frame_payload data of
        None \<Rightarrow> w
      | Some fr \<Rightarrow>
          (case drivers fr of
             None \<Rightarrow> w
           | Some ds \<Rightarrow>
               (let driver_codes = map fst ds;
                    desired = ''All Drivers'' # driver_codes;
                    current_items = combo_items w;
                    w1 = (if current_items \<noteq> desired then
                            (let w' = w\<lparr>combo_items := desired\<rparr>
                             in if current_driver w' \<notin> set desired
                                then w'\<lparr>current_driver := ''All Drivers''\<rparr> else w')
                          else w);
                    fi = get_or (frame_index data) 0
                in w1\<lparr>driver_data :=
                        foldl (\<lambda>dd (code, p). record_entry code (tyre_data fi p) dd)
                          (driver_data w1) ds\<rparr>)))"

text \<open>Python's \<^verbatim>\<open>max\<close> of a sequence without a default raises on the empty sequence.\<close>

fun py_max :: "int list \<Rightarrow> py_error + int" where
  "py_max [] = Inl ValueError"
| "py_max (x # xs) = Inr (foldl max x xs)"

fun collect :: "('e + 'a) list \<Rightarrow> 'e + 'a list" where
  "collect [] = Inr []"
| "collect (Inl e # rs) = Inl e"
| "collect (Inr x # rs) = (case collect rs of Inl e \<Rightarrow> Inl e | Inr xs \<Rightarrow> Inr (x # xs))"

text \<open>\<^verbatim>\<open>max((max(e['lap'] for e in entries) for entries in values if entries), default=0)\<close>\<close>

definition max_lap_of :: "store \<Rightarrow> py_error + int" where
  "max_lap_of dd =
     (case collect (map (\<lambda>es. py_max (map lap es)) (filter (\<lambda>es. es \<noteq> []) (map snd dd))) of
        Inl e \<Rightarrow> Inl e
      | Inr ms \<Rightarrow> (case ms of [] \<Rightarrow> Inr 0 | m # ms' \<Rightarrow> Inr (foldl max m ms')))"

definition title_prefix :: string where
  "title_prefix = ''Tyre Degradation Analysis - ''"

text \<open>The loop over \<^verbatim>\<open>enumerate(drivers_sorted)\<close> of the all-drivers branch; the
  accumulator is the list of plotted lines and the flag \<^verbatim>\<open>plotted\<close>.\<close>

fun plot_all ::
  "(int \<rightharpoonup> int) \<Rightarrow> store \<Rightarrow> (nat \<times> string) list \<Rightarrow> line list \<times> bool
     \<Rightarrow> py_error + (line list \<times> bool)" where
  "plot_all profile dd [] acc = Inr acc"
| "plot_all profile dd ((idx, driver) # rest) (ls, plotted) =
     (case compute_degradation_series profile (get_entries dd driver) of
        Inl e \<Rightarrow> Inl e
      | Inr (px, py) \<Rightarrow>
          if px \<noteq> [] \<and> py \<noteq> [] then
            plot_all profile dd rest
              (ls @ [\<lparr>line_x = px, line_y = py, line_width = 3 / 2,
                      line_color = Tab10 (idx mod 10), line_label = driver,
                      line_alpha = Some (9 / 10)\<rparr>], True)
          else plot_all profile dd rest (ls, plotted))"

definition update_plot :: "window \<Rightarrow> py_error + window" where
  "update_plot w =
     (let ax = new_axes
      in if driver_data w = [] then Inr (w\<lparr>figure := [placeholder_axes]\<rparr>)
         else
           (case max_lap_of (driver_data w) of
              Inl e \<Rightarrow> Inl e
            | Inr max_lap \<Rightarrow>
                if current_driver w \<noteq> [] \<and> current_driver w \<noteq> ''All Drivers'' then
                  (let driver = current_driver w;
                       entries = get_entries (driver_data w) driver
                   in case compute_degradation_series (expected_tyre_life w) entries of
                        Inl e \<Rightarrow> Inl e
                      | Inr (px, py) \<Rightarrow>
                          Inr (w\<lparr>figure :=
                            [ax\<lparr>ax_lines :=
                                  (if px \<noteq> [] \<and> py \<noteq> [] then
                                     [\<lparr>line_x = px, line_y = py, line_width = 2,
                                       line_color = TabBlue, line_label = driver,
                                       line_alpha = None\<rparr>]
                                   else []),
                                ax_title := title_prefix @ driver,
                                ax_xlabel := ''Race Lap'',
                                ax_ylabel := ''Tyre Health (%)'',
                                ax_xlim := Some (0, max_lap + 1),
                                ax_grid := True,
                                ax_legend := Some LegendDefault\<rparr>]\<rparr>))
                else
                  (let drivers_sorted = sort (map fst (driver_data w))
                   in case plot_all (expected_tyre_life w) (driver_data w)
                             (enumerate 0 drivers_sorted) ([], False) of
                        Inl e \<Rightarrow> Inl e
                      | Inr (ls, plotted) \<Rightarrow>
                          Inr (w\<lparr>figure :=
                            [ax\<lparr>ax_texts :=
                                  (if \<not> plotted then [''No tyre data to plot yet''] else []),
                                ax_lines := ls,
                                ax_title := title_prefix @ ''All Drivers'',
                                ax_xlabel := ''Race Lap'',
                                ax_ylabel := ''Tyre Health (%)'',
                                ax_xlim := Some (0, max_lap + 1),
                                ax_grid := True,
                                ax_legend := Some LegendUpperLeftSmallTwoColumns\<rparr>]\<rparr>))))"

definition on_driver_changed :: "string \<Rightarrow> window \<Rightarrow> py_error + window" where
  "on_driver_changed driver w =
     (if driver \<noteq> [] then update_plot (w\<lparr>current_driver := driver\<rparr>) else Inr w)"

definition refresh_data :: "window \<Rightarrow> py_error + window" where
  "refresh_data w = update_plot (w\<lparr>driver_data := []\<rparr>)"

section \<open>Auxiliary notions for the properties\<close>

text \<open>The samples (life, compound, lap) held by a stint.\<close>

definition stint_samples :: "stint \<Rightarrow> (int \<times> int \<times> int) list" where
  "stint_samples s = map (\<lambda>(a, l). (a, compound s, l)) (zip (lives s) (laps s))"

text \<open>Number of samples held by the stints before position \<open>j\<close>.\<close>

definition stint_offset :: "stint list \<Rightarrow> nat \<Rightarrow> nat" where
  "stint_offset ss j = sum_list (map (\<lambda>s. length (lives s)) (take j ss))"

text \<open>What holds of the loop variables after every iteration: \<^verbatim>\<open>current_stint\<close> is the last
  element of \<^verbatim>\<open>stints\<close>, and every stint has as many lives as laps, at least one.\<close>

definition seg_inv :: "seg_state \<Rightarrow> bool" where
  "seg_inv st =
     ((case current_stint st of
         None \<Rightarrow> stints st = []
       | Some cs \<Rightarrow> stints st \<noteq> [] \<and> last (stints st) = cs)
      \<and> list_all (\<lambda>s. length (lives s) = length (laps s) \<and> lives s \<noteq> []) (stints st))"

text \<open>The health value of a sample at lap \<open>L\<close> of a stint, in closed form.\<close>

definition health_formula :: "int \<Rightarrow> int \<Rightarrow> int \<Rightarrow> int \<Rightarrow> real" where
  "health_formula expected_life start_age start_lap' L =
     (if expected_life > 1 then
        100 - (real_of_int (max 0 ((start_age - 1) + max 0 (L - start_lap')))
                 / real_of_int (expected_life - 1)) * 100
      else 100)"

text \<open>The windows that the operations can produce from the constructor's state.\<close>

inductive reachable :: "window \<Rightarrow> bool" where
  init: "reachable window_init"
| telemetry: "reachable w \<Longrightarrow> reachable (on_telemetry_data data w)"
| plot: "reachable w \<Longrightarrow> update_plot w = Inr w' \<Longrightarrow> reachable w'"
| select: "reachable w \<Longrightarrow> on_driver_changed driver w = Inr w' \<Longrightarrow> reachable w'"
| refresh: "reachable w \<Longrightarrow> refresh_data w = Inr w' \<Longrightarrow> reachable w'"

text \<open>Every driver code of the store has at least one entry.\<close>

definition store_nonempty :: "store \<Rightarrow> bool" where
  "store_nonempty dd = (\<forall>c \<in> fst ` set dd. get_entries dd c \<noteq> [])"

text \<open>The axes drawn by the all-drivers branch and by the single-driver branch of
  \<^verbatim>\<open>update_plot\<close>.\<close>

definition all_drivers_axes :: "line list \<Rightarrow> bool \<Rightarrow> int \<Rightarrow> axes" where
  "all_drivers_axes ls plotted max_lap =
     new_axes\<lparr>ax_texts := (if \<not> plotted then [''No tyre data to plot yet''] else []),
              ax_lines := ls,
              ax_title := title_prefix @ ''All Drivers'',
              ax_xlabel := ''Race Lap'',
              ax_ylabel := ''Tyre Health (%)'',
              ax_xlim := Some (0, max_lap + 1),
              ax_grid := True,
              ax_legend := Some LegendUpperLeftSmallTwoColumns\<rparr>"

definition single_driver_axes :: "string \<Rightarrow> int list \<Rightarrow> real list \<Rightarrow> int \<Rightarrow> axes" where
  "single_driver_axes driver px py max_lap =
     new_axes\<lparr>ax_lines :=
                (if px \<noteq> [] \<and> py \<noteq> [] then
                   [\<lparr>line_x = px, line_y = py, line_width = 2, line_color = TabBlue,
                     line_label = driver, line_alpha = None\<rparr>]
                 else []),
              ax_title := title_prefix @ driver,
              ax_xlabel := ''Race Lap'',
              ax_ylabel := ''Tyre Health (%)'',
              ax_xlim := Some (0, max_lap + 1),
              ax_grid := True,
              ax_legend := Some LegendDefault\<rparr>"

text \<open>The division made for a sample at lap \<open>L\<close> leaves the range of doubles.\<close>

definition health_overflows :: "int \<Rightarrow> int \<Rightarrow> int \<Rightarrow> int \<Rightarrow> bool" where
  "health_overflows expected_life start_age start_lap' L =
     (1 < expected_life
      \<and> float_overflow (real_of_int (max 0 ((start_age - 1) + max 0 (L - start_lap')))
                          / real_of_int (expected_life - 1)))"

definition stint_overflows :: "(int \<rightharpoonup> int) \<Rightarrow> stint \<Rightarrow> bool" where
  "stint_overflows profile s =
     (\<exists>(a, L) \<in> set (zip (lives s) (laps s)).
        health_overflows (expected_life_of profile (compound s)) (start_life s) (start_lap s) L)"

text \<open>The stints that \<^verbatim>\<open>compute_degradation_series\<close> builds from a list of entries.\<close>

definition entry_stints :: "entry list \<Rightarrow> stint list" where
  "entry_stints entries =
     build_stints (zip (map tyre_life (sort_key frame entries))
       (zip (map tyre (sort_key frame entries)) (map lap (sort_key frame entries))))"

text \<open>An entry whose tyre life and lap are far inside the range of doubles.\<close>

definition small_entry :: "entry \<Rightarrow> bool" where
  "small_entry e = (\<bar>tyre_life e\<bar> \<le> 2 ^ 1000 \<and> \<bar>lap e\<bar> \<le> 2 ^ 1000)"

text \<open>The windows that the operations produce when a driver is selected only through the
  selector: \<^verbatim>\<open>on_driver_changed\<close> is connected to the selector's signal alone, which
  carries the text of one of its items, or the empty text when the items are cleared.\<close>

inductive selector_reachable :: "window \<Rightarrow> bool" where
  sr_init: "selector_reachable window_init"
| sr_telemetry: "selector_reachable w \<Longrightarrow> selector_reachable (on_telemetry_data data w)"
| sr_plot: "selector_reachable w \<Longrightarrow> update_plot w = Inr w' \<Longrightarrow> selector_reachable w'"
| sr_select: "selector_reachable w \<Longrightarrow> driver \<in> set (combo_items w) \<or> driver = [] \<Longrightarrow>
     on_driver_changed driver w = Inr w' \<Longrightarrow> selector_reachable w'"
| sr_refresh: "selector_reachable w \<Longrightarrow> refresh_data w = Inr w' \<Longrightarrow> selector_reachable w'"

text \<open>The selection is an item of the selector, and when the store is not empty every item
  other than All Drivers has stored entries.\<close>

definition selector_inv :: "window \<Rightarrow> bool" where
  "selector_inv w =
     (current_driver w \<in> set (combo_items w)
      \<and> (driver_data w = []
          \<or> (\<forall>c \<in> set (combo_items w).
                c = ''All Drivers'' \<or> get_entries (driver_data w) c \<noteq> [])))"

section \<open>Concrete inputs\<close>

definition example_history :: "(int \<times> int \<times> int) list" where
  "example_history = [(1, 0, 1), (2, 0, 2), (1, 0, 3), (2, 1, 4), (1, 1, 5)]"

definition example_stint :: stint where
  "example_stint =
     \<lparr>compound = 0, start_life = 1, start_lap = 5, lives = [1, 2, 3], laps = [5, 6, 7]\<rparr>"

definition worn_stint :: stint where
  "worn_stint =
     \<lparr>compound = 0, start_life = 1, start_lap = 1, lives = [1, 39], laps = [1, 39]\<rparr>"

definition unknown_compound_stint :: stint where
  "unknown_compound_stint =
     \<lparr>compound = 7, start_life = 3, start_lap = 10, lives = [3, 4], laps = [10, 11]\<rparr>"

text \<open>\<open>n\<close> entries numbered by their frame.\<close>

definition numbered_entries :: "nat \<Rightarrow> entry list" where
  "numbered_entries n = map (\<lambda>i. \<lparr>frame = int i, tyre = 0, tyre_life = 1, lap = 1\<rparr>) [0..<n]"

text \<open>A frame with the single driver VER and a frame with the single driver HAM.\<close>

definition ver_frame :: telemetry where
  "ver_frame =
     \<lparr>frame_payload =
        Some \<lparr>drivers = Some [(''VER'', \<lparr>pos_tyre = Some 1, pos_tyre_life = Some 1,
                                          pos_lap = Some 1\<rparr>)]\<rparr>,
      frame_index = Some 0\<rparr>"

definition unordered_entries :: "entry list" where
  "unordered_entries =
     [\<lparr>frame = 2, tyre = 0, tyre_life = 2, lap = 2\<rparr>,
      \<lparr>frame = 1, tyre = 0, tyre_life = 1, lap = 1\<rparr>]"

definition ver_window :: window where
  "ver_window =
     \<lparr>current_driver = ''All Drivers'',
      driver_data = [(''VER'', [\<lparr>frame = 0, tyre = 1, tyre_life = 1, lap = 1\<rparr>])],
      expected_tyre_life = expected_tyre_life_table,
      combo_items = [''All Drivers'', ''VER''],
      figure = []\<rparr>"

definition ver_selected_window :: window where
  "ver_selected_window =
     ver_window\<lparr>current_driver := ''VER'',
                figure := [single_driver_axes ''VER'' [1] [100] 1]\<rparr>"

definition refreshed_window :: window where
  "refreshed_window = ver_selected_window\<lparr>driver_data := [], figure := [placeholder_axes]\<rparr>"

definition ham_frame :: telemetry where
  "ham_frame =
     \<lparr>frame_payload =
        Some \<lparr>drivers = Some [(''HAM'', \<lparr>pos_tyre = Some 1, pos_tyre_life = Some 1,
                                          pos_lap = Some 2\<rparr>)]\<rparr>,
      frame_index = Some 1\<rparr>"

section \<open>Properties of the stint loop\<close>

lemma seg_inv_init: "seg_inv seg_init"
  by (simp add: seg_inv_def seg_init_def)

lemma seg_inv_step: "seg_inv st \<Longrightarrow> seg_inv (stint_step st x)"
  by (cases x) (auto simp: seg_inv_def stint_step_def Let_def new_stint_def list_all_iff
       split: option.splits dest: in_set_butlastD)

lemma stint_samples_new: "stint_samples (new_stint life c l) = [(life, c, l)]"
  by (simp add: stint_samples_def new_stint_def)

lemma stint_samples_extend:
  "length (lives cs) = length (laps cs) \<Longrightarrow>
   stint_samples (cs\<lparr>lives := lives cs @ [life], laps := laps cs @ [l]\<rparr>)
     = stint_samples cs @ [(life, compound cs, l)]"
  by (simp add: stint_samples_def)

lemma concat_butlast_snoc:
  "ss \<noteq> [] \<Longrightarrow> concat (map f (butlast ss)) @ f (last ss) = concat (map f ss)"
  by (induction ss) auto

lemma samples_step:
  assumes "seg_inv st"
  shows "concat (map stint_samples (stints (stint_step st x)))
           = concat (map stint_samples (stints st)) @ [x]"
proof (cases x)
  case (fields life c l)
  show ?thesis
  proof (cases "current_stint st")
    case None
    then show ?thesis
      by (simp add: fields stint_step_def Let_def stint_samples_new)
  next
    case (Some cs)
    with assms have ne: "stints st \<noteq> []" and lst: "last (stints st) = cs"
      and len: "length (lives cs) = length (laps cs)"
      by (auto simp: seg_inv_def list_all_iff)
    show ?thesis
    proof (cases "is_new_stint st life c")
      case True
      then show ?thesis
        by (simp add: fields Some stint_step_def Let_def stint_samples_new)
    next
      case False
      then have "compound cs = c"
        by (simp add: is_new_stint_def Some)
      with False ne lst len show ?thesis
        using concat_butlast_snoc [of "stints st" stint_samples]
        by (simp add: fields Some stint_step_def Let_def stint_samples_extend)
    qed
  qed
qed

lemma seg_inv_foldl: "seg_inv st \<Longrightarrow> seg_inv (foldl stint_step st xs)"
  by (induction xs arbitrary: st) (simp_all add: seg_inv_step)

lemma samples_foldl:
  "seg_inv st \<Longrightarrow>
   concat (map stint_samples (stints (foldl stint_step st xs)))
     = concat (map stint_samples (stints st)) @ xs"
  by (induction xs arbitrary: st) (simp_all add: seg_inv_step samples_step)

lemma build_stints_samples: "concat (map stint_samples (build_stints xs)) = xs"
  by (simp add: build_stints_def samples_foldl seg_inv_init) (simp add: seg_init_def)


lemma concat_take_mono:
  "j \<le> j' \<Longrightarrow> length (concat (take j xss)) \<le> length (concat (take j' xss))"
proof -
  assume "j \<le> j'"
  then have "take j' xss = take j xss @ take (j' - j) (drop j xss)"
    by (metis le_add_diff_inverse take_add)
  then show ?thesis by simp
qed

lemma concat_take_Suc:
  "j < length xss \<Longrightarrow> length (concat (take (Suc j) xss)) = length (concat (take j xss)) + length (xss ! j)"
  by (simp add: take_Suc_conv_app_nth)

lemma concat_pos_exists:
  "i < length (concat xss) \<Longrightarrow>
   \<exists>j k. j < length xss \<and> k < length (xss ! j) \<and> length (concat (take j xss)) + k = i"
proof (induction xss rule: rev_induct)
  case Nil
  then show ?case by simp
next
  case (snoc xs xss)
  show ?case
  proof (cases "i < length (concat xss)")
    case True
    with snoc.IH obtain j k where "j < length xss" "k < length (xss ! j)"
      "length (concat (take j xss)) + k = i" by blast
    then show ?thesis
      by (intro exI [of _ j] exI [of _ k]) (simp add: nth_append)
  next
    case False
    with snoc.prems show ?thesis
      by (intro exI [of _ "length xss"] exI [of _ "i - length (concat xss)"]) auto
  qed
qed

lemma concat_pos_unique:
  assumes "j < length xss" "k < length (xss ! j)"
    and "j' < length xss" "k' < length (xss ! j')"
    and "length (concat (take j xss)) + k = length (concat (take j' xss)) + k'"
  shows "j = j' \<and> k = k'"
proof -
  have lt: "\<not> a < b" if "a < length xss" "ka < length (xss ! a)" "b < length xss" "kb < length (xss ! b)"
    "length (concat (take a xss)) + ka = length (concat (take b xss)) + kb" for a b ka kb
  proof
    assume "a < b"
    then have "length (concat (take (Suc a) xss)) \<le> length (concat (take b xss))"
      by (simp add: concat_take_mono)
    with that show False by (simp add: concat_take_Suc)
  qed
  from assms lt [of j k j' k'] lt [of j' k' j k] have "j = j'" by (metis linorder_neqE_nat)
  with assms show ?thesis by simp
qed

lemma concat_pos_nth:
  "j < length xss \<Longrightarrow> k < length (xss ! j) \<Longrightarrow>
   concat xss ! (length (concat (take j xss)) + k) = xss ! j ! k"
proof -
  assume j: "j < length xss" and k: "k < length (xss ! j)"
  have "xss = take j xss @ (xss ! j) # drop (Suc j) xss"
    using j by (simp add: id_take_nth_drop)
  then have "concat xss = concat (take j xss) @ (xss ! j) @ concat (drop (Suc j) xss)"
    by (metis concat.simps(2) concat_append)
  with k show ?thesis by (simp add: nth_append)
qed

lemma seg_inv_build: "seg_inv (foldl stint_step seg_init xs)"
  by (simp add: seg_inv_foldl seg_inv_init)

lemma build_stints_wf:
  "s \<in> set (build_stints h) \<Longrightarrow> lives s \<noteq> [] \<and> length (laps s) = length (lives s)"
  using seg_inv_build [of h] by (simp add: build_stints_def seg_inv_def list_all_iff)

lemma length_stint_samples:
  "length (laps s) = length (lives s) \<Longrightarrow> length (stint_samples s) = length (lives s)"
  by (simp add: stint_samples_def)

lemma stint_offset_concat:
  "\<forall>s \<in> set ss. length (laps s) = length (lives s) \<Longrightarrow>
   length (concat (take j (map stint_samples ss))) = stint_offset ss j"
proof -
  assume wf: "\<forall>s \<in> set ss. length (laps s) = length (lives s)"
  have "map (length \<circ> stint_samples) (take j ss) = map (\<lambda>s. length (lives s)) (take j ss)"
    using wf by (auto simp: length_stint_samples dest: in_set_takeD)
  then have "sum_list (map (length \<circ> stint_samples) (take j ss)) = stint_offset ss j"
    unfolding stint_offset_def by (rule arg_cong)
  then show ?thesis
    by (simp add: length_concat take_map)
qed

lemma build_stints_pairs:
  "concat (map (\<lambda>s. zip (lives s) (laps s)) (build_stints h)) = map (\<lambda>(a, c, l). (a, l)) h"
proof -
  have "map (\<lambda>(a, c, l). (a, l)) (concat (map stint_samples ss))
          = concat (map (\<lambda>s. zip (lives s) (laps s)) ss)" for ss
    by (induction ss) (simp_all add: stint_samples_def comp_def case_prod_beta)
  from this [of "build_stints h"] show ?thesis
    by (simp add: build_stints_samples)
qed

lemma build_stints_position:
  assumes "i < length h"
  shows "\<exists>!(j, k). j < length (build_stints h) \<and> k < length (lives (build_stints h ! j))
            \<and> stint_offset (build_stints h) j + k = i"
proof -
  let ?ss = "build_stints h"
  let ?xss = "map stint_samples ?ss"
  have wf: "\<forall>s \<in> set ?ss. length (laps s) = length (lives s)"
    using build_stints_wf by blast
  have len: "length (stint_samples (?ss ! j)) = length (lives (?ss ! j))" if "j < length ?ss" for j
    using that wf by (simp add: length_stint_samples)
  have off: "length (concat (take j ?xss)) = stint_offset ?ss j" for j
    using wf by (rule stint_offset_concat)
  from assms have "i < length (concat ?xss)"
    by (simp add: build_stints_samples)
  then obtain j k where jk: "j < length ?xss" "k < length (?xss ! j)"
    "length (concat (take j ?xss)) + k = i"
    using concat_pos_exists by blast
  show ?thesis
  proof (rule ex1I [of _ "(j, k)"])
    from jk show "case (j, k) of (j, k) \<Rightarrow> j < length ?ss \<and> k < length (lives (?ss ! j))
            \<and> stint_offset ?ss j + k = i"
      by (simp add: len off)
  next
    fix p
    assume p: "case p of (j, k) \<Rightarrow> j < length ?ss \<and> k < length (lives (?ss ! j))
            \<and> stint_offset ?ss j + k = i"
    obtain j' k' where [simp]: "p = (j', k')" by (cases p)
    from p jk concat_pos_unique [of j' ?xss k' j k] show "p = (j, k)"
      by (simp add: len off)
  qed
qed

text \<open>
  Claim C1. The stint loop partitions its input exactly: concatenating the samples of the
  stints in output order gives back the input (with the compound, and as (tyre_age, race_lap)
  pairs), no stint is empty, and every position of the input lies in exactly one stint, at
  exactly one place of it.
\<close>

theorem build_stints_partition:
  "concat (map stint_samples (build_stints h)) = h
   \<and> concat (map (\<lambda>s. zip (lives s) (laps s)) (build_stints h)) = map (\<lambda>(a, c, l). (a, l)) h
   \<and> (\<forall>s \<in> set (build_stints h). lives s \<noteq> [] \<and> length (laps s) = length (lives s))
   \<and> (\<forall>i < length h.
        \<exists>!(j, k). j < length (build_stints h) \<and> k < length (lives (build_stints h ! j))
          \<and> stint_offset (build_stints h) j + k = i)"
  using build_stints_samples build_stints_pairs build_stints_wf build_stints_position
  by blast

lemma build_stints_example:
  "build_stints example_history = 
    [\<lparr>compound = 0, start_life = 1, start_lap = 1, lives = [1, 2], laps = [1, 2]\<rparr>,
     \<lparr>compound = 0, start_life = 1, start_lap = 3, lives = [1], laps = [3]\<rparr>,
     \<lparr>compound = 1, start_life = 2, start_lap = 4, lives = [2], laps = [4]\<rparr>,
     \<lparr>compound = 1, start_life = 1, start_lap = 5, lives = [1], laps = [5]\<rparr>]"
  by (simp add: example_history_def build_stints_def seg_init_def stint_step_def is_new_stint_def
        new_stint_def Let_def)

theorem build_stints_partition_witness:
  "concat (map (\<lambda>s. zip (lives s) (laps s)) (build_stints example_history))
     = [(1, 1), (2, 2), (1, 3), (2, 4), (1, 5)]
   \<and> (2::nat) < length example_history
   \<and> (\<exists>!(j, k). j < length (build_stints example_history)
          \<and> k < length (lives (build_stints example_history ! j))
          \<and> stint_offset (build_stints example_history) j + k = 2)"
proof -
  have i: "(2::nat) < length example_history"
    by (simp add: example_history_def)
  from build_stints_partition [of example_history] i show ?thesis
    by (auto simp: example_history_def)
qed

subsection \<open>When a stint starts\<close>

lemma run_previous_life:
  "previous_life (foldl stint_step seg_init xs)
     = (if xs = [] then None else Some (fst (last xs)))"
proof (induction xs rule: rev_induct)
  case Nil
  show ?case by (simp add: seg_init_def)
next
  case (snoc x xs)
  show ?case
    by (cases x) (simp add: stint_step_def Let_def split: option.splits)
qed

lemma run_current_stint:
  "current_stint (foldl stint_step seg_init xs)
     = (if xs = [] then None else Some (last (build_stints xs)))"
proof (cases xs rule: rev_cases)
  case Nil
  then show ?thesis by (simp add: seg_init_def)
next
  case (snoc ys y)
  have "current_stint (stint_step st y) \<noteq> None" for st
    by (cases y) (simp add: stint_step_def Let_def split: option.splits)
  then obtain cs where cs: "current_stint (foldl stint_step seg_init xs) = Some cs"
    using snoc by fastforce
  with seg_inv_build [of xs] have "last (build_stints xs) = cs"
    by (simp add: seg_inv_def build_stints_def)
  with cs snoc show ?thesis by simp
qed

lemma build_stints_Nil: "build_stints [] = []"
  by (simp add: build_stints_def seg_init_def)

lemma build_stints_nonempty: "xs \<noteq> [] \<Longrightarrow> build_stints xs \<noteq> []"
  using build_stints_samples [of xs] by auto

lemma build_stints_snoc:
  "build_stints (pre @ [(life, c, l)]) =
     (if pre = [] \<or> compound (last (build_stints pre)) \<noteq> c \<or> life < fst (last pre)
      then build_stints pre
             @ [\<lparr>compound = c, start_life = life, start_lap = l, lives = [life], laps = [l]\<rparr>]
      else butlast (build_stints pre)
             @ [(last (build_stints pre))
                  \<lparr>lives := lives (last (build_stints pre)) @ [life],
                   laps := laps (last (build_stints pre)) @ [l]\<rparr>])"
proof -
  have "build_stints (pre @ [(life, c, l)])
          = stints (stint_step (foldl stint_step seg_init pre) (life, c, l))"
    by (simp add: build_stints_def)
  also have "\<dots> = stints (if pre = [] \<or> compound (last (build_stints pre)) \<noteq> c \<or> life < fst (last pre)
      then \<lparr>stints = build_stints pre @ [new_stint life c l], current_stint = Some (new_stint life c l), previous_life = Some life\<rparr>
      else \<lparr>stints = butlast (build_stints pre)
             @ [(last (build_stints pre))
                  \<lparr>lives := lives (last (build_stints pre)) @ [life],
                   laps := laps (last (build_stints pre)) @ [l]\<rparr>], current_stint = Some ((last (build_stints pre))
                  \<lparr>lives := lives (last (build_stints pre)) @ [life],
                   laps := laps (last (build_stints pre)) @ [l]\<rparr>), previous_life = Some life\<rparr>)"
    by (simp add: stint_step_def is_new_stint_def Let_def run_current_stint run_previous_life)
      (simp add: build_stints_def)
  finally show ?thesis
    by (simp add: new_stint_def)
qed

lemma last_stint_compound:
  "pre \<noteq> [] \<Longrightarrow> compound (last (build_stints pre)) = fst (snd (last pre))"
proof -
  assume ne: "pre \<noteq> []"
  let ?ss = "build_stints pre"
  have ss: "?ss \<noteq> []" using ne by (rule build_stints_nonempty)
  have "last ?ss \<in> set ?ss" using ss by simp
  then have nz: "stint_samples (last ?ss) \<noteq> []"
    using build_stints_wf [of "last ?ss" pre] by (auto simp: stint_samples_def)
  have "concat (map stint_samples ?ss) = pre" by (rule build_stints_samples)
  then have "concat (map stint_samples (butlast ?ss)) @ stint_samples (last ?ss) = pre"
    using ss by (simp add: concat_butlast_snoc)
  then have "last pre = last (stint_samples (last ?ss))"
    using nz by (metis last_appendR)
  also have "fst (snd \<dots>) = compound (last ?ss)"
    using nz by (simp add: stint_samples_def last_map case_prod_beta)
  finally show ?thesis by simp
qed

text \<open>
  Claim C2. Let \<open>pre\<close> be the samples processed so far and (life, c, l) the next one.
  The loop appends a new stint holding just this sample if and only if it is the first sample,
  or its compound differs from the compound of the current (last) stint, or its tyre life is
  strictly less than that of the sample just before it. Otherwise the sample is appended to the
  current stint and no stint is added. The current stint's compound is the compound of the
  previous sample.
\<close>

theorem new_stint_rule:
  "(build_stints (pre @ [(life, c, l)])
      = build_stints pre
          @ [\<lparr>compound = c, start_life = life, start_lap = l, lives = [life], laps = [l]\<rparr>]
    \<longleftrightarrow> pre = [] \<or> compound (last (build_stints pre)) \<noteq> c \<or> life < fst (last pre))
   \<and> (\<not> (pre = [] \<or> compound (last (build_stints pre)) \<noteq> c \<or> life < fst (last pre)) \<longrightarrow>
        build_stints (pre @ [(life, c, l)])
          = butlast (build_stints pre)
              @ [(last (build_stints pre))
                   \<lparr>lives := lives (last (build_stints pre)) @ [life],
                    laps := laps (last (build_stints pre)) @ [l]\<rparr>])
   \<and> (pre \<noteq> [] \<longrightarrow> compound (last (build_stints pre)) = fst (snd (last pre)))"
proof -
  have "length (butlast (build_stints pre) @ [s]) \<noteq> length (build_stints pre @ [s'])"
    if "pre \<noteq> []" for s s'
    using build_stints_nonempty [OF that] by simp
  then have "butlast (build_stints pre) @ [s] \<noteq> build_stints pre @ [s']"
    if "pre \<noteq> []" for s s'
    using that by metis
  then show ?thesis
    by (auto simp: build_stints_snoc last_stint_compound)
qed

lemma build_stints_single:
  "build_stints [(life, c, l)]
     = [\<lparr>compound = c, start_life = life, start_lap = l, lives = [life], laps = [l]\<rparr>]"
  by (simp add: build_stints_def seg_init_def stint_step_def new_stint_def Let_def)

theorem new_stint_rule_witness:
  "\<not> ([(1, 0, 1)] = [] \<or> compound (last (build_stints [(1, 0, 1)])) \<noteq> 0
        \<or> (2::int) < fst (last [(1::int, 0::int, 1::int)]))
   \<and> [(1::int, 0::int, 1::int)] \<noteq> []
   \<and> build_stints ([(1, 0, 1)] @ [(2, 0, 2)])
       = [\<lparr>compound = 0, start_life = 1, start_lap = 1, lives = [1, 2], laps = [1, 2]\<rparr>]
   \<and> build_stints ([(5, 0, 1)] @ [(1, 1, 2)])
       = [\<lparr>compound = 0, start_life = 5, start_lap = 1, lives = [5], laps = [1]\<rparr>,
          \<lparr>compound = 1, start_life = 1, start_lap = 2, lives = [1], laps = [2]\<rparr>]"
proof -
  have ext: "\<not> ([(1, 0, 1)] = [] \<or> compound (last (build_stints [(1, 0, 1)])) \<noteq> 0
        \<or> (2::int) < fst (last [(1::int, 0::int, 1::int)]))"
    by (simp add: build_stints_single)
  have new: "[(5, 0, 1)] = [] \<or> compound (last (build_stints [(5, 0, 1)])) \<noteq> 1
        \<or> (1::int) < fst (last [(5::int, 0::int, 1::int)])"
    by (simp add: build_stints_single)
  from ext new_stint_rule [of "[(1, 0, 1)]" 2 0 2]
  have a: "build_stints ([(1, 0, 1)] @ [(2, 0, 2)])
          = butlast (build_stints [(1, 0, 1)])
              @ [(last (build_stints [(1, 0, 1)]))
                   \<lparr>lives := lives (last (build_stints [(1, 0, 1)])) @ [2],
                    laps := laps (last (build_stints [(1, 0, 1)])) @ [2]\<rparr>]"
    by blast
  from new new_stint_rule [of "[(5, 0, 1)]" 1 1 2]
  have b: "build_stints ([(5, 0, 1)] @ [(1, 1, 2)])
          = build_stints [(5, 0, 1)]
              @ [\<lparr>compound = 1, start_life = 1, start_lap = 2, lives = [1], laps = [2]\<rparr>]"
    by blast
  show ?thesis
    using ext by (simp only: a b build_stints_single) simp
qed

section \<open>Properties of the health curve\<close>

lemma health_pct_eq:
  "health_pct el sa sl L
     = (if health_overflows el sa sl L then Inl OverflowError
        else Inr (health_formula el sa sl L))"
  by (simp add: health_pct_def health_formula_def health_overflows_def true_div_def Let_def)

lemma stint_points_eq:
  "stint_points el sa sl samples (px, py)
     = (if \<exists>(a, L) \<in> set samples. health_overflows el sa sl L then Inl OverflowError
        else Inr (px @ map snd samples,
                  py @ map (\<lambda>(a, L). health_formula el sa sl L) samples))"
  by (induction samples arbitrary: px py) (auto simp: health_pct_eq)

lemma plot_stints_eq:
  "plot_stints profile ss (px, py)
     = (if \<exists>s \<in> set ss. stint_overflows profile s then Inl OverflowError
        else Inr (px @ concat (map (\<lambda>s. map snd (zip (lives s) (laps s))) ss),
                  py @ concat (map (\<lambda>s. map (\<lambda>(a, L). health_formula
                      (expected_life_of profile (compound s)) (start_life s) (start_lap s) L)
                    (zip (lives s) (laps s))) ss)))"
proof (induction ss arbitrary: px py)
  case Nil
  show ?case by simp
next
  case (Cons s ss)
  show ?case
    by (simp add: stint_points_eq Cons.IH stint_overflows_def)
qed

lemma health_formula_le: "health_formula el sa sl L \<le> 100"
  by (simp add: health_formula_def)

text \<open>
  Claim C3. For a stint \<open>s\<close>, the generated points are, for each sample (a, L) of the
  stint in order, the lap L and the health
  100 - (max 0 ((start_life - 1) + max 0 (L - start_lap)) / (expected_life - 1)) * 100
  when the expected life of the stint's compound is greater than 1, and exactly 100 otherwise.
  The only failure is the overflow of a division, which an expected life of 1 or less never
  makes.
\<close>

theorem health_curve_formula:
  "plot_stints profile [s] ([], [])
     = (if \<exists>(a, L) \<in> set (zip (lives s) (laps s)).
             1 < expected_life_of profile (compound s)
             \<and> float_overflow
                 (real_of_int (max 0 ((start_life s - 1) + max 0 (L - start_lap s)))
                    / real_of_int (expected_life_of profile (compound s) - 1))
        then Inl OverflowError
        else Inr (map snd (zip (lives s) (laps s)),
            map (\<lambda>(a, L).
                   if expected_life_of profile (compound s) > 1 then
                     100 - (real_of_int (max 0 ((start_life s - 1) + max 0 (L - start_lap s)))
                              / real_of_int (expected_life_of profile (compound s) - 1)) * 100
                   else 100)
              (zip (lives s) (laps s))))
   \<and> (expected_life_of profile (compound s) \<le> 1 \<longrightarrow>
        plot_stints profile [s] ([], [])
          = Inr (map snd (zip (lives s) (laps s)), map (\<lambda>(a, L). 100) (zip (lives s) (laps s))))"
  by (auto simp: plot_stints_eq stint_overflows_def health_overflows_def health_formula_def)

theorem health_curve_formula_witness:
  "plot_stints expected_tyre_life_table [example_stint] ([], [])
     = Inr ([5, 6, 7], [100, 100 - 100 / 19, 100 - 200 / 19])
   \<and> expected_life_of [0 \<mapsto> 1] (compound example_stint) \<le> 1
   \<and> plot_stints [0 \<mapsto> 1] [example_stint] ([], []) = Inr ([5, 6, 7], [100, 100, 100])"
proof -
  have one: "expected_life_of [0 \<mapsto> 1] (compound example_stint) \<le> 1"
    by (simp add: example_stint_def expected_life_of_def)
  with health_curve_formula [of "[0 \<mapsto> 1]" example_stint]
  have "plot_stints [0 \<mapsto> 1] [example_stint] ([], [])
          = Inr (map snd (zip (lives example_stint) (laps example_stint)),
                 map (\<lambda>(a, L). 100) (zip (lives example_stint) (laps example_stint)))"
    by blast
  then have a: "plot_stints [0 \<mapsto> 1] [example_stint] ([], []) = Inr ([5, 6, 7], [100, 100, 100])"
    by (simp add: example_stint_def)
  have b: "plot_stints expected_tyre_life_table [example_stint] ([], [])
     = Inr ([5, 6, 7], [100, 100 - 100 / 19, 100 - 200 / 19])"
    using health_curve_formula [of expected_tyre_life_table example_stint]
    by (simp add: example_stint_def expected_life_of_def expected_tyre_life_table_def
          float_overflow_def)
  from a b one show ?thesis by blast
qed

subsection \<open>The whole series\<close>

lemma series_laps:
  "map (\<lambda>(a, c, l). l) (zip (map f es) (zip (map g es) (map h es))) = map h es"
  by (induction es) simp_all

lemma series_x:
  "concat (map (\<lambda>s. map snd (zip (lives s) (laps s))) (build_stints hs))
     = map (\<lambda>(a, c, l). l) hs"
proof -
  have "concat (map (\<lambda>s. map snd (zip (lives s) (laps s))) (build_stints hs))
          = map snd (concat (map (\<lambda>s. zip (lives s) (laps s)) (build_stints hs)))"
    by (simp add: map_concat comp_def)
  also have "\<dots> = map snd (map (\<lambda>(a, c, l). (a, l)) hs)"
    by (simp only: build_stints_pairs)
  also have "\<dots> = map (\<lambda>(a, c, l). l) hs"
    by (simp add: comp_def case_prod_beta)
  finally show ?thesis .
qed

lemma series_y_length:
  "length (concat (map (\<lambda>s. map (F s) (zip (lives s) (laps s))) (build_stints hs))) = length hs"
proof -
  have "length (concat (map (\<lambda>s. map (F s) (zip (lives s) (laps s))) ss))
          = length (concat (map (\<lambda>s. zip (lives s) (laps s)) ss))" for ss
    by (induction ss) simp_all
  then show ?thesis
    by (simp add: build_stints_pairs)
qed

lemma compute_degradation_series_eq:
  "compute_degradation_series profile entries
     = (if \<exists>s \<in> set (entry_stints entries). stint_overflows profile s then Inl OverflowError
        else Inr (map lap (sort_key frame entries),
            concat (map (\<lambda>s. map (\<lambda>(a, L). health_formula
                      (expected_life_of profile (compound s)) (start_life s) (start_lap s) L)
                    (zip (lives s) (laps s)))
              (entry_stints entries))))"
  by (cases "entries = []")
    (simp_all add: compute_degradation_series_def Let_def plot_stints_eq series_x series_laps
       build_stints_Nil entry_stints_def)

lemma series_shape:
  assumes "compute_degradation_series profile entries = Inr (px, py)"
  shows "px = map lap (sort_key frame entries)" and "length py = length entries"
  using assms
  by (auto simp: compute_degradation_series_eq entry_stints_def series_y_length
        split: if_splits)

lemma series_error:
  "compute_degradation_series profile entries = Inl e \<Longrightarrow> e = OverflowError"
  by (auto simp: compute_degradation_series_eq split: if_splits)

subsection \<open>Entries inside the range of doubles\<close>

lemma build_stints_anchor:
  "s \<in> set (build_stints h) \<Longrightarrow> (start_life s, compound s, start_lap s) \<in> set h"
proof (induction h arbitrary: s rule: rev_induct)
  case Nil
  then show ?case by (simp add: build_stints_Nil)
next
  case (snoc x pre)
  obtain life c l where x: "x = (life, c, l)" by (cases x)
  show ?case
  proof (cases "pre = [] \<or> compound (last (build_stints pre)) \<noteq> c \<or> life < fst (last pre)")
    case True
    with snoc.prems have "s \<in> set (build_stints pre)
        \<or> s = \<lparr>compound = c, start_life = life, start_lap = l, lives = [life], laps = [l]\<rparr>"
      by (auto simp: x build_stints_snoc)
    then show ?thesis
      using snoc.IH by (auto simp: x)
  next
    case False
    then have ne: "build_stints pre \<noteq> []"
      by (simp add: build_stints_nonempty)
    from False snoc.prems have "s \<in> set (butlast (build_stints pre))
        \<or> s = (last (build_stints pre))
                  \<lparr>lives := lives (last (build_stints pre)) @ [life],
                   laps := laps (last (build_stints pre)) @ [l]\<rparr>"
      by (auto simp: x build_stints_snoc)
    then show ?thesis
    proof
      assume "s \<in> set (butlast (build_stints pre))"
      then have "s \<in> set (build_stints pre)" by (rule in_set_butlastD)
      from snoc.IH [OF this] show ?thesis by simp
    next
      assume s: "s = (last (build_stints pre))
                  \<lparr>lives := lives (last (build_stints pre)) @ [life],
                   laps := laps (last (build_stints pre)) @ [l]\<rparr>"
      have "last (build_stints pre) \<in> set (build_stints pre)" using ne by simp
      from snoc.IH [OF this] show ?thesis by (simp add: s)
    qed
  qed
qed

lemma build_stints_sample:
  assumes "s \<in> set (build_stints h)" "(a, L) \<in> set (zip (lives s) (laps s))"
  shows "(a, compound s, L) \<in> set h"
proof -
  from assms(2) have "(a, compound s, L) \<in> set (stint_samples s)"
    by (force simp: stint_samples_def)
  with assms(1) have "(a, compound s, L) \<in> set (concat (map stint_samples (build_stints h)))"
    by auto
  then show ?thesis by (simp only: build_stints_samples)
qed

lemma zip_map3:
  "zip (map f es) (zip (map g es) (map h es)) = map (\<lambda>e. (f e, g e, h e)) es"
  by (induction es) simp_all

lemma float_limit_big: "(2::real) ^ 1002 \<le> 2 ^ 1024 - 2 ^ 970"
  by simp

lemma small_progress_no_overflow:
  assumes "\<bar>sa\<bar> \<le> 2 ^ 1000" "\<bar>sl\<bar> \<le> 2 ^ 1000" "\<bar>L\<bar> \<le> 2 ^ 1000"
  shows "\<not> health_overflows el sa sl L"
proof
  assume ov: "health_overflows el sa sl L"
  let ?p = "max 0 ((sa - 1) + max 0 (L - sl))"
  from ov have el: "1 < el" and fo: "float_overflow (real_of_int ?p / real_of_int (el - 1))"
    by (simp_all add: health_overflows_def)
  have p0: "0 \<le> ?p" by simp
  have "?p \<le> 3 * 2 ^ 1000" using assms by (simp add: max_def abs_le_iff) 
  then have "real_of_int ?p \<le> 3 * 2 ^ 1000"
    by (metis of_int_le_iff of_int_numeral of_int_mult of_int_power)
  moreover have "real_of_int ?p / real_of_int (el - 1) \<le> real_of_int ?p"
    using el p0 by (simp add: divide_le_eq mult_le_cancel_left1)
  moreover have "0 \<le> real_of_int ?p / real_of_int (el - 1)"
    using el p0 by simp
  ultimately have "\<bar>real_of_int ?p / real_of_int (el - 1)\<bar> \<le> 3 * 2 ^ 1000"
    by linarith
  moreover have "(3::real) * 2 ^ 1000 < 2 ^ 1024 - 2 ^ 970" by simp
  ultimately show False using fo by (simp add: float_overflow_def)
qed

lemma small_entries_no_overflow:
  assumes small: "\<forall>e \<in> set entries. small_entry e" and s: "s \<in> set (entry_stints entries)"
  shows "\<not> stint_overflows profile s"
proof -
  let ?es = "sort_key frame entries"
  let ?h = "zip (map tyre_life ?es) (zip (map tyre ?es) (map lap ?es))"
  have h: "?h = map (\<lambda>e. (tyre_life e, tyre e, lap e)) ?es"
    by (rule zip_map3)
  have bound: "\<bar>a\<bar> \<le> 2 ^ 1000 \<and> \<bar>l\<bar> \<le> 2 ^ 1000" if "(a, c, l) \<in> set ?h" for a c l
    using that small unfolding h by (auto simp: small_entry_def)
  from s have s': "s \<in> set (build_stints ?h)" by (simp add: entry_stints_def)
  from build_stints_anchor [OF s'] bound
  have anchor: "\<bar>start_life s\<bar> \<le> 2 ^ 1000" "\<bar>start_lap s\<bar> \<le> 2 ^ 1000" by blast+
  show ?thesis
    unfolding stint_overflows_def
  proof
    assume "\<exists>(a, L) \<in> set (zip (lives s) (laps s)).
        health_overflows (expected_life_of profile (compound s)) (start_life s) (start_lap s) L"
    then obtain a L where m: "(a, L) \<in> set (zip (lives s) (laps s))"
      and ov: "health_overflows (expected_life_of profile (compound s)) (start_life s)
          (start_lap s) L"
      by auto
    from build_stints_sample [OF s' m] bound have "\<bar>L\<bar> \<le> 2 ^ 1000" by blast
    with anchor ov small_progress_no_overflow show False by blast
  qed
qed

lemma small_entries_series:
  "\<forall>e \<in> set entries. small_entry e \<Longrightarrow>
   \<exists>px py. compute_degradation_series profile entries = Inr (px, py)"
  using small_entries_no_overflow by (auto simp: compute_degradation_series_eq)

text \<open>
  Claim C10. Whenever the series is produced it has one point per entry: the x-values are
  the laps of the entries sorted by frame (a stable sort into ascending frame order), and
  there are as many y-values as entries. The series is produced whenever every entry is
  small, and the only failure is the overflow of a division.
\<close>

theorem series_points:
  "(\<forall>px py. compute_degradation_series profile entries = Inr (px, py) \<longrightarrow>
       px = map lap (sort_key frame entries)
       \<and> length px = length entries
       \<and> length py = length entries)
   \<and> ((\<forall>e \<in> set entries. small_entry e) \<longrightarrow>
        (\<exists>px py. compute_degradation_series profile entries = Inr (px, py)))
   \<and> (\<forall>e. compute_degradation_series profile entries = Inl e \<longrightarrow> e = OverflowError)
   \<and> sorted (map frame (sort_key frame entries))
   \<and> (\<forall>k. filter (\<lambda>e. frame e = k) (sort_key frame entries)
             = filter (\<lambda>e. frame e = k) entries)"
proof -
  have a: "px = map lap (sort_key frame entries) \<and> length px = length entries
      \<and> length py = length entries"
    if "compute_degradation_series profile entries = Inr (px, py)" for px py
    using series_shape [OF that] by simp
  from a small_entries_series [of entries profile] series_error [of profile entries]
  show ?thesis
    by (simp add: sort_key_stable)
qed

theorem series_points_witness:
  "(\<bar>tyre_life (unordered_entries ! 0)\<bar> \<le> 2 ^ 1000 \<and> \<bar>lap (unordered_entries ! 0)\<bar> \<le> 2 ^ 1000)
   \<and> compute_degradation_series expected_tyre_life_table unordered_entries
       = Inr ([1, 2], [100, 100 - 100 / 19])
   \<and> [1, 2] = map lap (sort_key frame unordered_entries)
   \<and> length [100, 100 - 100 / 19 :: real] = length unordered_entries"
proof -
  have ev: "compute_degradation_series expected_tyre_life_table unordered_entries
       = Inr ([1, 2], [100, 100 - 100 / 19])"
    by (simp add: compute_degradation_series_def unordered_entries_def Let_def
          build_stints_def seg_init_def stint_step_def is_new_stint_def new_stint_def
          health_pct_def true_div_def float_overflow_def expected_life_of_def
          expected_tyre_life_table_def)
  have small: "\<bar>tyre_life (unordered_entries ! 0)\<bar> \<le> 2 ^ 1000
      \<and> \<bar>lap (unordered_entries ! 0)\<bar> \<le> 2 ^ 1000"
    by (simp add: unordered_entries_def)
  from ev series_points [of expected_tyre_life_table unordered_entries]
  have "[1, 2] = map lap (sort_key frame unordered_entries)
      \<and> length [100, 100 - 100 / 19 :: real] = length unordered_entries"
    by blast
  with ev small show ?thesis by blast
qed

text \<open>
  Claim C7. A stint whose compound has no entry in the profile is plotted with the expected
  life 25, exactly as if the profile listed 25 for it, that is with divisor 24. For every
  profile and all compound codes the series of small entries is produced, and the only
  failure of the computation is the overflow of a division: no compound code makes the lookup
  or the division by the expected life fail. In the table of the constructor the compounds
  outside 0..4 have no entry.
\<close>

theorem default_expected_life:
  "(profile (compound s) = None \<longrightarrow>
      expected_life_of profile (compound s) = 25
      \<and> plot_stints profile [s] acc = plot_stints (profile(compound s \<mapsto> 25)) [s] acc
      \<and> plot_stints profile [s] ([], [])
          = (if \<exists>(a, L) \<in> set (zip (lives s) (laps s)).
                  float_overflow
                    (real_of_int (max 0 ((start_life s - 1) + max 0 (L - start_lap s))) / 24)
             then Inl OverflowError
             else Inr (map snd (zip (lives s) (laps s)),
                   map (\<lambda>(a, L). 100 - (real_of_int (max 0 ((start_life s - 1)
                                           + max 0 (L - start_lap s))) / 24) * 100)
                     (zip (lives s) (laps s)))))
   \<and> ((\<forall>e \<in> set entries. small_entry e) \<longrightarrow>
        (\<exists>px py. compute_degradation_series profile entries = Inr (px, py)))
   \<and> (\<forall>e. compute_degradation_series profile entries = Inl e \<longrightarrow> e = OverflowError)
   \<and> (\<forall>c. c < 0 \<or> 4 < c \<longrightarrow> expected_tyre_life_table c = None)"
proof -
  have a: "expected_life_of profile (compound s) = 25" if "profile (compound s) = None"
    using that by (simp add: expected_life_of_def)
  have b: "plot_stints profile [s] acc = plot_stints (profile(compound s \<mapsto> 25)) [s] acc"
    if "profile (compound s) = None"
    using that by (simp add: expected_life_of_def split: sum.splits)
  have c: "plot_stints profile [s] ([], [])
          = (if \<exists>(a, L) \<in> set (zip (lives s) (laps s)).
                  float_overflow
                    (real_of_int (max 0 ((start_life s - 1) + max 0 (L - start_lap s))) / 24)
             then Inl OverflowError
             else Inr (map snd (zip (lives s) (laps s)),
                   map (\<lambda>(a, L). 100 - (real_of_int (max 0 ((start_life s - 1)
                                           + max 0 (L - start_lap s))) / 24) * 100)
                     (zip (lives s) (laps s))))"
    if "profile (compound s) = None"
    by (auto simp: plot_stints_eq stint_overflows_def health_overflows_def health_formula_def
          a [OF that])
  have d: "\<forall>c. c < 0 \<or> 4 < c \<longrightarrow> expected_tyre_life_table c = None"
    by (simp add: expected_tyre_life_table_def)
  from a b c d small_entries_series [of entries profile] series_error [of profile entries]
  show ?thesis by blast
qed

theorem default_expected_life_witness:
  "expected_tyre_life_table (compound unknown_compound_stint) = None
   \<and> plot_stints expected_tyre_life_table [unknown_compound_stint] ([], [])
       = Inr ([10, 11], [100 - 200 / 24, 100 - 300 / 24])"
proof -
  have "(4::int) < compound unknown_compound_stint"
    by (simp add: unknown_compound_stint_def)
  with default_expected_life [of expected_tyre_life_table unknown_compound_stint _ "[]"]
  have none: "expected_tyre_life_table (compound unknown_compound_stint) = None"
    by blast
  with default_expected_life [of expected_tyre_life_table unknown_compound_stint _ "[]"]
  have "plot_stints expected_tyre_life_table [unknown_compound_stint] ([], [])
          = (if \<exists>(a, L) \<in> set (zip (lives unknown_compound_stint)
                    (laps unknown_compound_stint)).
                  float_overflow
                    (real_of_int (max 0 ((start_life unknown_compound_stint - 1)
                       + max 0 (L - start_lap unknown_compound_stint))) / 24)
             then Inl OverflowError
             else Inr (map snd (zip (lives unknown_compound_stint)
                         (laps unknown_compound_stint)),
                   map (\<lambda>(a, L). 100 - (real_of_int (max 0
                           ((start_life unknown_compound_stint - 1)
                              + max 0 (L - start_lap unknown_compound_stint))) / 24) * 100)
                     (zip (lives unknown_compound_stint) (laps unknown_compound_stint))))"
    by blast
  also have "\<dots> = Inr ([10, 11], [100 - 200 / 24, 100 - 300 / 24])"
    by (simp add: unknown_compound_stint_def float_overflow_def)
  finally show ?thesis
    using none by blast
qed

subsection \<open>Range of the health values\<close>

lemma plot_stints_le:
  "plot_stints profile ss ([], []) = Inr (px, py) \<Longrightarrow> y \<in> set py \<Longrightarrow> y \<le> 100"
  by (auto simp: plot_stints_eq health_formula_le split: if_splits)

text \<open>
  Claim C9 as stated fails: no stint and no profile give a health value above 100.
\<close>

theorem health_above_100_counterexample:
  "\<not> (\<exists>profile s px py. plot_stints profile [s] ([], []) = Inr (px, py)
         \<and> (\<exists>y \<in> set py. 100 < y))"
  using plot_stints_le by fastforce

text \<open>
  Claim C9, amended. Health is not clamped from below: some stint has a generated health
  value below 0. It is bounded above: every generated health value, of a single stint and of
  a whole series, is at most 100.
\<close>

theorem health_range:
  "(\<exists>profile s px py. plot_stints profile [s] ([], []) = Inr (px, py) \<and> (\<exists>y \<in> set py. y < 0))
   \<and> (\<forall>profile s px py. plot_stints profile [s] ([], []) = Inr (px, py)
         \<longrightarrow> (\<forall>y \<in> set py. y \<le> 100))
   \<and> (\<forall>profile entries px py. compute_degradation_series profile entries = Inr (px, py)
         \<longrightarrow> (\<forall>y \<in> set py. y \<le> 100))"
proof -
  have "plot_stints expected_tyre_life_table [worn_stint] ([], []) = Inr ([1, 39], [100, - 100])"
    by (simp add: plot_stints_eq stint_overflows_def health_overflows_def float_overflow_def
          health_formula_def worn_stint_def expected_life_of_def expected_tyre_life_table_def)
  then have neg: "\<exists>profile s px py. plot_stints profile [s] ([], []) = Inr (px, py)
      \<and> (\<exists>y \<in> set py. y < 0)"
    by (intro exI [of _ expected_tyre_life_table] exI [of _ worn_stint] exI [of _ "[1, 39]"]
          exI [of _ "[100, - 100]"]) simp
  have ser: "y \<le> 100" if "compute_degradation_series profile entries = Inr (px, py)"
    "y \<in> set py" for profile entries px py y
    using that by (auto simp: compute_degradation_series_eq health_formula_le split: if_splits)
  from neg ser plot_stints_le show ?thesis by blast
qed

theorem health_range_witness:
  "plot_stints expected_tyre_life_table [worn_stint] ([], []) = Inr ([1, 39], [100, - 100])
   \<and> (100::real) \<le> 100 \<and> (- 100::real) \<le> 100"
proof -
  have ev: "plot_stints expected_tyre_life_table [worn_stint] ([], []) = Inr ([1, 39], [100, - 100])"
    by (simp add: worn_stint_def expected_life_of_def expected_tyre_life_table_def
          health_pct_def true_div_def float_overflow_def Let_def)
  with health_range have "\<forall>y \<in> set [100, - 100 :: real]. y \<le> 100"
    by blast
  with ev show ?thesis by simp
qed

section \<open>Properties of the sample store\<close>

lemma get_entries_update:
  "get_entries (AList.update k v dd) k' = (if k' = k then v else get_entries dd k')"
  by (simp add: get_entries_def update_conv')

lemma get_entries_record:
  "get_entries (record_entry code e dd) code'
     = (if code' = code
        then drop (length (get_entries dd code @ [e]) - 1000) (get_entries dd code @ [e])
        else get_entries dd code')"
  by (auto simp: record_entry_def Let_def get_entries_update)
    (simp_all add: get_entries_def)

lemma keys_record: "fst ` set (record_entry code e dd) = insert code (fst ` set dd)"
  by (auto simp: record_entry_def Let_def dom_update)

lemma last_n_snoc:
  "drop (length (drop (length xs - n) xs @ [e]) - n) (drop (length xs - n) xs @ [e])
     = drop (length (xs @ [e]) - n) (xs @ [e])"
  by (cases "length xs \<le> n") (auto simp: Suc_diff_le)

lemma get_entries_record_all:
  "get_entries (foldl (\<lambda>d x. record_entry code x d) dd xs) code
     = (if xs = [] then get_entries dd code
        else drop (length (get_entries dd code @ xs) - 1000) (get_entries dd code @ xs))"
proof (induction xs rule: rev_induct)
  case Nil
  show ?case by simp
next
  case (snoc x xs)
  show ?case
  proof (cases "xs = []")
    case True
    then show ?thesis by (simp add: get_entries_record)
  next
    case False
    with snoc show ?thesis
      using last_n_snoc [of "get_entries dd code @ xs" 1000 x]
      by (simp add: get_entries_record)
  qed
qed

lemma record_entry_cap_all:
  "\<forall>c. length (get_entries dd c) \<le> 1000 \<Longrightarrow>
   length (get_entries (record_entry code e dd) c) \<le> 1000"
  by (auto simp: get_entries_record)

lemma record_loop_cap:
  "\<forall>c. length (get_entries dd c) \<le> 1000 \<Longrightarrow>
   length (get_entries (foldl (\<lambda>dd (code, p). record_entry code (tyre_data fi p) dd) dd ds) c)
     \<le> 1000"
proof (induction ds arbitrary: dd)
  case Nil
  then show ?case by simp
next
  case (Cons d ds)
  obtain code p where d: "d = (code, p)" by (cases d)
  have "\<forall>c. length (get_entries (record_entry code (tyre_data fi p) dd) c) \<le> 1000"
    using Cons.prems by (simp add: record_entry_cap_all)
  from Cons.IH [OF this] show ?case by (simp add: d)
qed

text \<open>
  Claim C5. After recording an entry for a driver, that driver's history has at most 1000
  entries, whatever it held before; if every history had at most 1000 entries before, every
  history has afterwards, for one recorded entry and for a whole telemetry frame. Recording
  the entries \<open>xs\<close> one after the other for a driver with no history leaves the last 1000 of
  them in their order; for 1005 entries these are the entries after the first five.
\<close>

theorem retention_cap:
  "length (get_entries (record_entry code e dd) code) \<le> 1000
   \<and> ((\<forall>c. length (get_entries dd c) \<le> 1000)
        \<longrightarrow> (\<forall>c. length (get_entries (record_entry code e dd) c) \<le> 1000))
   \<and> ((\<forall>c. length (get_entries (driver_data w) c) \<le> 1000)
        \<longrightarrow> (\<forall>c. length (get_entries (driver_data (on_telemetry_data data w)) c) \<le> 1000))
   \<and> (get_entries dd code = [] \<longrightarrow>
        get_entries (foldl (\<lambda>d x. record_entry code x d) dd xs) code
          = drop (length xs - 1000) xs)
   \<and> (get_entries dd code = [] \<and> length xs = 1005 \<longrightarrow>
        get_entries (foldl (\<lambda>d x. record_entry code x d) dd xs) code = drop 5 xs
        \<and> length (get_entries (foldl (\<lambda>d x. record_entry code x d) dd xs) code) = 1000)"
proof -
  have a: "length (get_entries (record_entry code e dd) code) \<le> 1000"
    by (simp add: get_entries_record)
  have b: "(\<forall>c. length (get_entries dd c) \<le> 1000)
        \<longrightarrow> (\<forall>c. length (get_entries (record_entry code e dd) c) \<le> 1000)"
    by (simp add: record_entry_cap_all)
  have c: "(\<forall>c. length (get_entries (driver_data w) c) \<le> 1000)
        \<longrightarrow> (\<forall>c. length (get_entries (driver_data (on_telemetry_data data w)) c) \<le> 1000)"
    by (auto simp: on_telemetry_data_def Let_def record_loop_cap split: option.splits)
  have d: "get_entries (foldl (\<lambda>d x. record_entry code x d) dd xs) code
          = drop (length xs - 1000) xs" if "get_entries dd code = []"
    using that by (simp add: get_entries_record_all)
  have e: "get_entries (foldl (\<lambda>d x. record_entry code x d) dd xs) code = drop 5 xs
        \<and> length (get_entries (foldl (\<lambda>d x. record_entry code x d) dd xs) code) = 1000"
    if "get_entries dd code = []" "length xs = 1005"
    using that by (simp add: d)
  from a b c d e show ?thesis by blast
qed

theorem retention_cap_witness:
  "get_entries [] ''VER'' = []
   \<and> length (numbered_entries 1005) = 1005
   \<and> get_entries (foldl (\<lambda>d x. record_entry ''VER'' x d) [] (numbered_entries 1005)) ''VER''
       = drop 5 (numbered_entries 1005)
   \<and> length (get_entries (foldl (\<lambda>d x. record_entry ''VER'' x d) [] (numbered_entries 1005))
       ''VER'') = 1000"
proof -
  have h1: "get_entries [] ''VER'' = []"
    by (simp add: get_entries_def)
  have h2: "length (numbered_entries 1005) = 1005"
    by (simp add: numbered_entries_def)
  from h1 h2 retention_cap [of "''VER''" _ "[]" _ _ "numbered_entries 1005"]
  show ?thesis by blast
qed

section \<open>Properties of plotting\<close>

lemma update_plot_empty:
  "driver_data w = [] \<Longrightarrow> update_plot w = Inr (w\<lparr>figure := [placeholder_axes]\<rparr>)"
  by (simp add: update_plot_def)

lemma update_plot_Inr:
  "update_plot w = Inr w' \<Longrightarrow> \<exists>f. w' = w\<lparr>figure := f\<rparr>"
  by (auto simp: update_plot_def Let_def split: if_splits sum.splits prod.splits)

lemma update_plot_figure_irrelevant:
  "update_plot (w\<lparr>figure := f\<rparr>) = update_plot w"
  by (simp add: update_plot_def Let_def split: sum.splits prod.splits)

lemma update_plot_all_view:
  assumes "update_plot w = Inr w'" "current_driver w = ''All Drivers''"
  shows "figure w' = [placeholder_axes]
         \<or> (\<exists>ls plotted m. figure w' = [all_drivers_axes ls plotted m])"
proof (cases "driver_data w = []")
  case True
  with assms show ?thesis by (auto simp: update_plot_empty)
next
  case False
  show ?thesis
  proof (cases "max_lap_of (driver_data w)")
    case (Inl e)
    with assms False show ?thesis by (simp add: update_plot_def)
  next
    case (Inr m)
    show ?thesis
    proof (cases "plot_all (expected_tyre_life w) (driver_data w)
        (enumerate 0 (sort (map fst (driver_data w)))) ([], False)")
      case (Inl e)
      with assms False Inr show ?thesis by (simp add: update_plot_def Let_def)
    next
      case r: (Inr res)
      obtain ls plotted where res: "res = (ls, plotted)" by (cases res)
      from assms False Inr r have "figure w' = [all_drivers_axes ls plotted m]"
        by (auto simp: update_plot_def Let_def all_drivers_axes_def res)
      then show ?thesis by blast
    qed
  qed
qed

text \<open>
  Claim C8. When plotting returns a window, it has changed neither the stored histories nor
  the selection, the expected-life table or the selector's items, and plotting that window
  again returns it unchanged. The outcome of plotting does not depend on the figure drawn
  before.
\<close>

theorem update_plot_projection:
  "(update_plot w = Inr w' \<longrightarrow>
      driver_data w' = driver_data w
      \<and> current_driver w' = current_driver w
      \<and> expected_tyre_life w' = expected_tyre_life w
      \<and> combo_items w' = combo_items w
      \<and> update_plot w' = Inr w')
   \<and> update_plot (w\<lparr>figure := f\<rparr>) = update_plot w"
proof -
  have "driver_data w' = driver_data w
      \<and> current_driver w' = current_driver w
      \<and> expected_tyre_life w' = expected_tyre_life w
      \<and> combo_items w' = combo_items w
      \<and> update_plot w' = Inr w'" if r: "update_plot w = Inr w'"
  proof -
    from update_plot_Inr [OF r] obtain g where g: "w' = w\<lparr>figure := g\<rparr>" by blast
    have "update_plot w' = update_plot w"
      unfolding g by (rule update_plot_figure_irrelevant)
    with r g show ?thesis by simp
  qed
  then show ?thesis
    by (simp add: update_plot_figure_irrelevant)
qed

subsection \<open>A window with one driver\<close>

lemma ver_window_eval: "on_telemetry_data ver_frame window_init = ver_window"
  by (simp add: on_telemetry_data_def ver_frame_def window_init_def Let_def record_entry_def
        get_entries_def tyre_data_def get_or_def ver_window_def)

lemma series_one:
  "compute_degradation_series expected_tyre_life_table
     [\<lparr>frame = 0, tyre = 1, tyre_life = 1, lap = 1\<rparr>] = Inr ([1], [100])"
  by (simp add: compute_degradation_series_def Let_def build_stints_single health_pct_def
        true_div_def float_overflow_def expected_life_of_def expected_tyre_life_table_def)

lemma ver_window_plot:
  "update_plot ver_window
     = Inr (ver_window\<lparr>figure :=
              [all_drivers_axes
                 [\<lparr>line_x = [1], line_y = [100], line_width = 3 / 2, line_color = Tab10 0,
                   line_label = ''VER'', line_alpha = Some (9 / 10)\<rparr>] True 1]\<rparr>)"
  by (simp add: update_plot_def ver_window_def Let_def max_lap_of_def get_entries_def
        series_one all_drivers_axes_def)

lemma ver_selected_eval: "on_driver_changed ''VER'' ver_window = Inr ver_selected_window"
  by (simp add: on_driver_changed_def update_plot_def ver_window_def Let_def max_lap_of_def
        get_entries_def series_one ver_selected_window_def single_driver_axes_def)

lemma refreshed_eval: "refresh_data ver_selected_window = Inr refreshed_window"
  by (simp add: refresh_data_def update_plot_empty refreshed_window_def)

theorem update_plot_projection_witness:
  "update_plot ver_window
     = Inr (ver_window\<lparr>figure :=
              [all_drivers_axes
                 [\<lparr>line_x = [1], line_y = [100], line_width = 3 / 2, line_color = Tab10 0,
                   line_label = ''VER'', line_alpha = Some (9 / 10)\<rparr>] True 1]\<rparr>)
   \<and> update_plot (ver_window\<lparr>figure :=
              [all_drivers_axes
                 [\<lparr>line_x = [1], line_y = [100], line_width = 3 / 2, line_color = Tab10 0,
                   line_label = ''VER'', line_alpha = Some (9 / 10)\<rparr>] True 1]\<rparr>)
       = Inr (ver_window\<lparr>figure :=
              [all_drivers_axes
                 [\<lparr>line_x = [1], line_y = [100], line_width = 3 / 2, line_color = Tab10 0,
                   line_label = ''VER'', line_alpha = Some (9 / 10)\<rparr>] True 1]\<rparr>)"
  using ver_window_plot update_plot_projection [of ver_window] by blast

subsection \<open>The empty store\<close>

lemma store_nonempty_record:
  "store_nonempty dd \<Longrightarrow> store_nonempty (record_entry code e dd)"
  unfolding store_nonempty_def keys_record
  by (auto simp: get_entries_record)

lemma store_nonempty_loop:
  "store_nonempty dd \<Longrightarrow>
   store_nonempty (foldl (\<lambda>dd (code, p). record_entry code (tyre_data fi p) dd) dd ds)"
proof (induction ds arbitrary: dd)
  case Nil
  then show ?case by simp
next
  case (Cons d ds)
  obtain code p where d: "d = (code, p)" by (cases d)
  from Cons.IH [OF store_nonempty_record [OF Cons.prems]] show ?case by (simp add: d)
qed

lemma store_nonempty_telemetry:
  "store_nonempty (driver_data w) \<Longrightarrow> store_nonempty (driver_data (on_telemetry_data data w))"
  by (auto simp: on_telemetry_data_def Let_def store_nonempty_loop split: option.splits)

lemma update_plot_driver_data: "update_plot w = Inr w' \<Longrightarrow> driver_data w' = driver_data w"
  using update_plot_Inr [of w w'] by auto

lemma reachable_store_nonempty: "reachable w \<Longrightarrow> store_nonempty (driver_data w)"
proof (induction rule: reachable.induct)
  case init
  show ?case by (simp add: window_init_def store_nonempty_def)
next
  case (telemetry w data)
  then show ?case by (simp add: store_nonempty_telemetry)
next
  case (plot w w')
  then show ?case by (simp add: update_plot_driver_data)
next
  case (select w driver w')
  then show ?case
    by (auto simp: on_driver_changed_def dest: update_plot_driver_data split: if_splits)
next
  case (refresh w w')
  then show ?case
    by (auto simp: refresh_data_def store_nonempty_def dest: update_plot_driver_data)
qed

lemma store_nonempty_no_telemetry:
  assumes "store_nonempty dd" "\<forall>c. get_entries dd c = []"
  shows "dd = []"
proof (cases dd)
  case Nil
  then show ?thesis .
next
  case (Cons d ds)
  then have "fst d \<in> fst ` set dd" by simp
  with assms show ?thesis by (auto simp: store_nonempty_def)
qed

text \<open>
  Claim C6. When the store is empty, and in a reachable window whenever no driver has any
  stored entry, plotting produces exactly the placeholder axes: the waiting text and no line.
\<close>

theorem empty_store_placeholder:
  "driver_data w = [] \<or> (reachable w \<and> (\<forall>c. get_entries (driver_data w) c = [])) \<Longrightarrow>
   update_plot w = Inr (w\<lparr>figure := [placeholder_axes]\<rparr>)
   \<and> ax_texts placeholder_axes = [waiting_text]
   \<and> ax_lines placeholder_axes = []"
proof -
  assume "driver_data w = [] \<or> (reachable w \<and> (\<forall>c. get_entries (driver_data w) c = []))"
  then have "driver_data w = []"
    using reachable_store_nonempty store_nonempty_no_telemetry by blast
  then show ?thesis
    by (simp add: update_plot_empty placeholder_axes_def new_axes_def)
qed

theorem empty_store_placeholder_witness:
  "driver_data window_init = []
   \<and> update_plot window_init = Inr (window_init\<lparr>figure := [placeholder_axes]\<rparr>)"
proof -
  have e: "driver_data window_init = []"
    by (simp add: window_init_def)
  with empty_store_placeholder [of window_init] show ?thesis by blast
qed

subsection \<open>Selection of a driver that is no longer present\<close>

lemma record_loop_nonempty:
  "code \<in> fst ` set ds \<or> get_entries dd code \<noteq> [] \<Longrightarrow>
   get_entries (foldl (\<lambda>dd (code, p). record_entry code (tyre_data fi p) dd) dd ds) code \<noteq> []"
proof (induction ds arbitrary: dd)
  case Nil
  then show ?case by simp
next
  case (Cons d ds)
  obtain c p where d: "d = (c, p)" by (cases d)
  have "code \<in> fst ` set ds \<or> get_entries (record_entry c (tyre_data fi p) dd) code \<noteq> []"
    using Cons.prems by (auto simp: d get_entries_record)
  from Cons.IH [OF this] show ?case by (simp add: d)
qed

lemma telemetry_selection:
  assumes "frame_payload data = Some fr" "drivers fr = Some ds"
  shows "current_driver (on_telemetry_data data w)
           = (if combo_items w \<noteq> ''All Drivers'' # map fst ds
                 \<and> current_driver w \<notin> set (''All Drivers'' # map fst ds)
              then ''All Drivers'' else current_driver w)"
    and "combo_items (on_telemetry_data data w) = ''All Drivers'' # map fst ds"
    and "driver_data (on_telemetry_data data w)
           = foldl (\<lambda>dd (code, p). record_entry code (tyre_data (get_or (frame_index data) 0) p) dd)
               (driver_data w) ds"
  using assms by (auto simp: on_telemetry_data_def Let_def)

lemma telemetry_no_frame:
  "frame_payload data = None \<or> (\<exists>fr. frame_payload data = Some fr \<and> drivers fr = None) \<Longrightarrow>
   on_telemetry_data data w = w"
  by (auto simp: on_telemetry_data_def)

lemma selector_inv_telemetry:
  assumes "selector_inv w"
  shows "selector_inv (on_telemetry_data data w)"
proof (cases "\<exists>fr ds. frame_payload data = Some fr \<and> drivers fr = Some ds")
  case False
  then have "on_telemetry_data data w = w"
    by (intro telemetry_no_frame) (cases "frame_payload data", auto)
  with assms show ?thesis by simp
next
  case True
  then obtain fr ds where fr: "frame_payload data = Some fr" and ds: "drivers fr = Some ds"
    by blast
  note ts = telemetry_selection [OF fr ds, of w]
  from assms have sel: "current_driver w \<in> set (combo_items w)"
    by (simp add: selector_inv_def)
  have a: "current_driver (on_telemetry_data data w)
      \<in> set (combo_items (on_telemetry_data data w))"
    using sel unfolding ts by auto
  have b: "c = ''All Drivers'' \<or> get_entries (driver_data (on_telemetry_data data w)) c \<noteq> []"
    if "c \<in> set (combo_items (on_telemetry_data data w))" for c
  proof -
    from that have "c = ''All Drivers'' \<or> c \<in> fst ` set ds"
      unfolding ts by auto
    then show ?thesis
      unfolding ts(3) using record_loop_nonempty by blast
  qed
  from a b show ?thesis
    unfolding selector_inv_def by blast
qed

lemma selector_inv_figure: "selector_inv (w\<lparr>figure := f\<rparr>) = selector_inv w"
  by (simp add: selector_inv_def)

lemma selector_inv_plot: "selector_inv w \<Longrightarrow> update_plot w = Inr w' \<Longrightarrow> selector_inv w'"
  using update_plot_Inr [of w w'] by (auto simp: selector_inv_figure)

lemma selector_reachable_inv: "selector_reachable w \<Longrightarrow> selector_inv w"
proof (induction rule: selector_reachable.induct)
  case sr_init
  show ?case by (simp add: selector_inv_def window_init_def)
next
  case (sr_telemetry w data)
  then show ?case by (simp add: selector_inv_telemetry)
next
  case (sr_plot w w')
  then show ?case by (simp add: selector_inv_plot)
next
  case (sr_select w driver w')
  show ?case
  proof (cases "driver = []")
    case True
    with sr_select show ?thesis by (simp add: on_driver_changed_def)
  next
    case False
    with sr_select have d: "driver \<in> set (combo_items w)"
      and u: "update_plot (w\<lparr>current_driver := driver\<rparr>) = Inr w'"
      by (simp_all add: on_driver_changed_def)
    from sr_select.IH d have "selector_inv (w\<lparr>current_driver := driver\<rparr>)"
      by (simp add: selector_inv_def)
    from selector_inv_plot [OF this u] show ?thesis .
  qed
next
  case (sr_refresh w w')
  then have u: "update_plot (w\<lparr>driver_data := []\<rparr>) = Inr w'"
    by (simp add: refresh_data_def)
  from sr_refresh.IH have "selector_inv (w\<lparr>driver_data := []\<rparr>)"
    by (simp add: selector_inv_def)
  from selector_inv_plot [OF this u] show ?case .
qed

lemma absent_selection_empty_store:
  assumes "selector_reachable w" "get_entries (driver_data w) (current_driver w) = []"
    "current_driver w \<noteq> ''All Drivers''"
  shows "driver_data w = []"
  using selector_reachable_inv [OF assms(1)] assms(2,3)
  by (auto simp: selector_inv_def)

text \<open>
  Claim C4. In every window reached through the selector, a selection without stored
  entries is rendered as the all-drivers selection is, and when it names a driver the plot
  returns the placeholder without error. The selection gets there by the fallback of
  \<^verbatim>\<open>on_telemetry_data\<close>: a frame whose drivers do not include the selected one sets the
  selection to All Drivers, so that the next plot is the all-drivers view; a frame that
  includes it keeps it.
\<close>

theorem absent_selection_all_view:
  "selector_reachable w \<Longrightarrow>
   (get_entries (driver_data w) (current_driver w) = [] \<longrightarrow>
      map_sum id figure (update_plot w)
        = map_sum id figure (update_plot (w\<lparr>current_driver := ''All Drivers''\<rparr>))
      \<and> (current_driver w \<noteq> ''All Drivers'' \<longrightarrow>
           update_plot w = Inr (w\<lparr>figure := [placeholder_axes]\<rparr>)))
   \<and> (frame_payload data = Some fr \<and> drivers fr = Some ds
        \<and> current_driver w \<notin> set (''All Drivers'' # map fst ds) \<longrightarrow>
        current_driver (on_telemetry_data data w) = ''All Drivers''
        \<and> (\<forall>w'. update_plot (on_telemetry_data data w) = Inr w' \<longrightarrow>
              figure w' = [placeholder_axes]
              \<or> (\<exists>ls plotted m. figure w' = [all_drivers_axes ls plotted m])))
   \<and> (frame_payload data = Some fr \<and> drivers fr = Some ds
        \<and> current_driver w \<in> set (''All Drivers'' # map fst ds) \<longrightarrow>
        current_driver (on_telemetry_data data w) = current_driver w)"
proof -
  assume r: "selector_reachable w"
  have a: "map_sum id figure (update_plot w)
        = map_sum id figure (update_plot (w\<lparr>current_driver := ''All Drivers''\<rparr>))
      \<and> (current_driver w \<noteq> ''All Drivers'' \<longrightarrow>
           update_plot w = Inr (w\<lparr>figure := [placeholder_axes]\<rparr>))"
    if absent: "get_entries (driver_data w) (current_driver w) = []"
  proof (cases "current_driver w = ''All Drivers''")
    case True
    then have e: "w\<lparr>current_driver := ''All Drivers''\<rparr> = w" by simp
    show ?thesis unfolding e using True by simp
  next
    case False
    from absent_selection_empty_store [OF r absent False] have "driver_data w = []" .
    then show ?thesis by (simp add: update_plot_empty)
  qed
  have b: "current_driver (on_telemetry_data data w) = ''All Drivers''
        \<and> (\<forall>w'. update_plot (on_telemetry_data data w) = Inr w' \<longrightarrow>
              figure w' = [placeholder_axes]
              \<or> (\<exists>ls plotted m. figure w' = [all_drivers_axes ls plotted m]))"
    if h: "frame_payload data = Some fr \<and> drivers fr = Some ds
        \<and> current_driver w \<notin> set (''All Drivers'' # map fst ds)"
  proof -
    from h have fr: "frame_payload data = Some fr" and ds: "drivers fr = Some ds"
      and out: "current_driver w \<notin> set (''All Drivers'' # map fst ds)" by simp_all
    from selector_reachable_inv [OF r] have "current_driver w \<in> set (combo_items w)"
      by (simp add: selector_inv_def)
    with out have "combo_items w \<noteq> ''All Drivers'' # map fst ds" by metis
    with out have c: "current_driver (on_telemetry_data data w) = ''All Drivers''"
      by (simp add: telemetry_selection(1) [OF fr ds])
    with update_plot_all_view show ?thesis by blast
  qed
  have c: "current_driver (on_telemetry_data data w) = current_driver w"
    if h: "frame_payload data = Some fr \<and> drivers fr = Some ds
        \<and> current_driver w \<in> set (''All Drivers'' # map fst ds)"
    using h by (simp add: telemetry_selection(1) [of data fr ds])
  from a b c show ?thesis by blast
qed

theorem absent_selection_all_view_witness:
  "selector_reachable refreshed_window
   \<and> get_entries (driver_data refreshed_window) (current_driver refreshed_window) = []
   \<and> current_driver refreshed_window = ''VER''
   \<and> update_plot refreshed_window = Inr (refreshed_window\<lparr>figure := [placeholder_axes]\<rparr>)
   \<and> selector_reachable ver_selected_window
   \<and> current_driver ver_selected_window = ''VER''
   \<and> current_driver (on_telemetry_data ham_frame ver_selected_window) = ''All Drivers''"
proof -
  have r1: "selector_reachable ver_window"
    using sr_telemetry [OF sr_init, of ver_frame] by (simp add: ver_window_eval)
  have "''VER'' \<in> set (combo_items ver_window) \<or> ''VER'' = []"
    by (simp add: ver_window_def)
  from sr_select [OF r1 this ver_selected_eval]
  have r2: "selector_reachable ver_selected_window" .
  from sr_refresh [OF r2 refreshed_eval]
  have r3: "selector_reachable refreshed_window" .
  have absent: "get_entries (driver_data refreshed_window) (current_driver refreshed_window) = []"
    by (simp add: refreshed_window_def get_entries_def)
  have named: "current_driver refreshed_window = ''VER''"
    by (simp add: refreshed_window_def ver_selected_window_def)
  then have other: "current_driver refreshed_window \<noteq> ''All Drivers''"
    by simp
  from absent_selection_all_view [OF r3] absent other
  have plot: "update_plot refreshed_window = Inr (refreshed_window\<lparr>figure := [placeholder_axes]\<rparr>)"
    by blast
  let ?fr = "\<lparr>drivers = Some [(''HAM'', \<lparr>pos_tyre = Some 1, pos_tyre_life = Some 1,
                                          pos_lap = Some (2::int)\<rparr>)]\<rparr>"
  let ?ds = "[(''HAM'', \<lparr>pos_tyre = Some 1, pos_tyre_life = Some 1, pos_lap = Some (2::int)\<rparr>)]"
  have sel: "current_driver ver_selected_window = ''VER''"
    by (simp add: ver_selected_window_def)
  have h: "frame_payload ham_frame = Some ?fr \<and> drivers ?fr = Some ?ds
      \<and> current_driver ver_selected_window \<notin> set (''All Drivers'' # map fst ?ds)"
    by (simp add: ham_frame_def sel)
  from absent_selection_all_view [OF r2, of ham_frame ?fr ?ds] h
  have fb: "current_driver (on_telemetry_data ham_frame ver_selected_window) = ''All Drivers''"
    by blast
  from r3 absent named plot r2 sel fb show ?thesis by blast
qed

end
